theory Spec2Isabelle
  imports Main
begin

section \<open>Go values shared by the packages\<close>

text \<open>
  A Go call either returns or panics. The value carried by a panic is what
  \<^verbatim>\<open>recover()\<close> hands back; \<open>PanicValue\<close> holds the \<^verbatim>\<open>%v\<close> rendering of a value
  passed to \<^verbatim>\<open>panic\<close> by user code, the other two constructors are the runtime errors
  of calling through a nil function or interface value and of indexing a slice out of
  range.
\<close>

datatype panic_value = NilDereference | IndexOutOfRange | PanicValue string

datatype 'a outcome = Return 'a | Panic panic_value

text \<open>
  Effects (the shared call log of the tests, fields of a controller, a response
  writer) live in a state \<open>'s\<close> that every call takes and hands back.
\<close>

type_synonym ('a, 's) go = "'s \<Rightarrow> 'a outcome \<times> 's"

text \<open>
  Values of the interface \<^verbatim>\<open>context.Context\<close>: what \<^verbatim>\<open>context.Background()\<close> returns, or
  any other context (derived with a value, a deadline or a cancel function), named by
  a value of \<open>'k\<close>. A variable of the interface type holds one of them or nil (\<open>None\<close>).
\<close>

datatype 'k Context = Background | Derived 'k




section \<open>Package interceptor: types.go and the chain builder\<close>

text \<open>
  \<^verbatim>\<open>type NextFunc[M any] func(ctx *UniversalContext[M]) (any, error)\<close>

  A function value may be nil (\<open>None\<close>). The returned pair is a result of type
  \<open>'r\<close> and an error that is nil (\<open>None\<close>) or not. The context type \<open>'c\<close> stands for
  \<^verbatim>\<open>*UniversalContext[M]\<close>, which the builder only passes along.
\<close>

type_synonym ('c, 's, 'r, 'e) func_body = "'c \<Rightarrow> (('r \<times> 'e option), 's) go"

type_synonym ('c, 's, 'r, 'e) NextFunc = "('c, 's, 'r, 'e) func_body option"

text \<open>
  \<^verbatim>\<open>type Interceptor[M any] interface { Intercept(ctx, next) (any, error) }\<close>

  An interface value may be nil as well.
\<close>

type_synonym ('c, 's, 'r, 'e) Intercept_body =
  "'c \<Rightarrow> ('c, 's, 'r, 'e) NextFunc \<Rightarrow> (('r \<times> 'e option), 's) go"

type_synonym ('c, 's, 'r, 'e) Interceptor = "('c, 's, 'r, 'e) Intercept_body option"

text \<open>Calling a function value, \<^verbatim>\<open>f(ctx)\<close>: a nil function panics.\<close>

definition call_func :: "('c, 's, 'r, 'e) NextFunc \<Rightarrow> 'c \<Rightarrow> (('r \<times> 'e option), 's) go" where
  "call_func f ctx s = (case f of None \<Rightarrow> (Panic NilDereference, s) | Some body \<Rightarrow> body ctx s)"

text \<open>The method call \<^verbatim>\<open>i.Intercept(ctx, next)\<close>: a nil interface panics.\<close>

definition Intercept ::
  "('c, 's, 'r, 'e) Interceptor \<Rightarrow> 'c \<Rightarrow> ('c, 's, 'r, 'e) NextFunc \<Rightarrow> (('r \<times> 'e option), 's) go" where
  "Intercept i ctx next s =
     (case i of None \<Rightarrow> (Panic NilDereference, s) | Some body \<Rightarrow> body ctx next s)"

text \<open>The slice read \<^verbatim>\<open>xs[i]\<close> with a Go \<^verbatim>\<open>int\<close> index: out of range it panics.\<close>

definition index_at :: "'a list \<Rightarrow> int \<Rightarrow> panic_value + 'a" where
  "index_at xs i =
     (if 0 \<le> i \<and> i < int (length xs) then Inr (xs ! nat i) else Inl IndexOutOfRange)"

text \<open>
  The loop of \<^verbatim>\<open>Chain\<close>:
  \<^verbatim>\<open>
  for i := len(interceptors) - 1; i >= 0; i-- {
      currentInterceptor := interceptors[i]
      nextFunc := handler
      handler = func(ctx *UniversalContext[M]) (any, error) {
          return currentInterceptor.Intercept(ctx, nextFunc)
      }
  }
  return handler
  \<close>
  Both captured variables are declared inside the body, so each closure keeps the
  values of its own iteration.
\<close>

function Chain_loop ::
  "('c, 's, 'r, 'e) NextFunc \<Rightarrow> ('c, 's, 'r, 'e) Interceptor list \<Rightarrow> int
     \<Rightarrow> panic_value + ('c, 's, 'r, 'e) NextFunc" where
  "Chain_loop handler interceptors i =
     (if i \<ge> 0 then
        (case index_at interceptors i of
           Inl p \<Rightarrow> Inl p
         | Inr currentInterceptor \<Rightarrow>
             (let nextFunc = handler in
              Chain_loop (Some (\<lambda>ctx. Intercept currentInterceptor ctx nextFunc))
                interceptors (i - 1)))
      else Inr handler)"
  by pat_completeness auto
termination
  by (relation "measure (\<lambda>(handler, interceptors, i). nat (i + 1))") auto

declare Chain_loop.simps [simp del]

text \<open>
  \<^verbatim>\<open>
  func Chain[M any](handler NextFunc[M], interceptors ...Interceptor[M]) NextFunc[M] {
      if len(interceptors) == 0 {
          return handler
      }
      ... the loop ...
  }
  \<close>
\<close>

definition Chain ::
  "('c, 's, 'r, 'e) NextFunc \<Rightarrow> ('c, 's, 'r, 'e) Interceptor list
     \<Rightarrow> panic_value + ('c, 's, 'r, 'e) NextFunc" where
  "Chain handler interceptors =
     (if length interceptors = 0 then Inr handler
      else Chain_loop handler interceptors (int (length interceptors) - 1))"

subsection \<open>What the loop builds\<close>

text \<open>One layer of the pipeline: the closure made by one iteration.\<close>

definition layer ::
  "('c, 's, 'r, 'e) Interceptor \<Rightarrow> ('c, 's, 'r, 'e) NextFunc \<Rightarrow> ('c, 's, 'r, 'e) NextFunc" where
  "layer i next = Some (\<lambda>ctx. Intercept i ctx next)"

subsection \<open>Shapes of interceptors\<close>

text \<open>
  An interceptor that invokes its next-function exactly once has the form
  \<^verbatim>\<open>
  func(ctx, next) (any, error) {
      ... pre-next logic, which may derive the context handed on ...
      result, err := next(ctx')
      ... post-next logic ...
      return ...
  }
  \<close>
  The pre-next logic is a state change that also yields the context for \<^verbatim>\<open>next\<close>. The
  post-next logic sees what the pre-next logic saw (the context and state on entry),
  the outcome of \<^verbatim>\<open>next\<close> and the state after it, and decides what is returned. An
  outcome that is a panic reaches the post-next logic only where the interceptor
  recovers; one that does not recover hands the panic on unchanged.
\<close>

type_synonym ('c, 's) pre_logic = "'c \<Rightarrow> 's \<Rightarrow> 'c \<times> 's"

type_synonym ('s, 'r, 'e) pending = "('r \<times> 'e option) outcome \<Rightarrow> (('r \<times> 'e option), 's) go"

type_synonym ('c, 's, 'r, 'e) post_logic = "'c \<Rightarrow> 's \<Rightarrow> ('s, 'r, 'e) pending"

definition around ::
  "('c, 's) pre_logic \<Rightarrow> ('c, 's, 'r, 'e) post_logic \<Rightarrow> ('c, 's, 'r, 'e) Intercept_body" where
  "around pre post ctx next s =
     (case pre ctx s of (ctx', s1) \<Rightarrow>
        (case call_func next ctx' s1 of (out, s2) \<Rightarrow> post ctx s out s2))"

definition as_interceptor ::
  "('c, 's) pre_logic \<times> ('c, 's, 'r, 'e) post_logic \<Rightarrow> ('c, 's, 'r, 'e) Interceptor" where
  "as_interceptor p = Some (around (fst p) (snd p))"

text \<open>
  An interceptor that returns without invoking its next-function: the parameter
  \<^verbatim>\<open>next\<close> is not used.
\<close>

definition short_circuit :: "('c, 's, 'r, 'e) func_body \<Rightarrow> ('c, 's, 'r, 'e) Intercept_body" where
  "short_circuit f ctx next s = f ctx s"

text \<open>
  An interceptor that returns what its next-function returned, unchanged; its
  post-next logic may only change the state.
  \<^verbatim>\<open>
      result, err := next(ctx')
      ... post-next logic ...
      return result, err
  \<close>
\<close>

type_synonym ('c, 's, 'r, 'e) after_logic = "'c \<Rightarrow> 's \<Rightarrow> ('r \<times> 'e option) outcome \<Rightarrow> 's \<Rightarrow> 's"

definition passing ::
  "('c, 's) pre_logic \<Rightarrow> ('c, 's, 'r, 'e) after_logic \<Rightarrow> ('c, 's, 'r, 'e) Intercept_body" where
  "passing pre after = around pre (\<lambda>ctx s out s2. (out, after ctx s out s2))"

definition as_passing ::
  "('c, 's) pre_logic \<times> ('c, 's, 'r, 'e) after_logic \<Rightarrow> ('c, 's, 'r, 'e) Interceptor" where
  "as_passing p = Some (passing (fst p) (snd p))"

text \<open>
  An interceptor that transforms a successful result, as in \<^verbatim>\<open>TestChain_ModifyResult\<close>:
  \<^verbatim>\<open>
      result, err := next(ctx)
      if err != nil {
          return nil, err        // any handling of the failure: otherwise
      }
      return f(result), nil
  \<close>
\<close>

definition transform ::
  "('r \<Rightarrow> 'r) \<Rightarrow> ('s, 'r, 'e) pending \<Rightarrow> ('c, 's, 'r, 'e) Intercept_body" where
  "transform f otherwise ctx next s =
     (case call_func next ctx s of
        (Return (result, err), s') \<Rightarrow>
          (case err of
             Some e \<Rightarrow> otherwise (Return (result, err)) s'
           | None \<Rightarrow> (Return (f result, None), s'))
      | (Panic p, s') \<Rightarrow> otherwise (Panic p) s')"

subsection \<open>The order the specification describes\<close>

text \<open>
  The specified order of one invocation, written as a sequential program over a stack
  of pending post-next logics. \<open>enter_all\<close> runs the pre-next logic of the interceptors
  in list order, once each, and pushes the post-next logic of each; \<open>unwind\<close> pops the
  stack, so the post-next logic pushed last runs first.
\<close>

fun enter_all ::
  "(('c, 's) pre_logic \<times> ('c, 's, 'r, 'e) post_logic) list \<Rightarrow> 'c \<Rightarrow> 's
     \<Rightarrow> ('s, 'r, 'e) pending list \<Rightarrow> 'c \<times> 's \<times> ('s, 'r, 'e) pending list" where
  "enter_all [] ctx s stack = (ctx, s, stack)"
| "enter_all (p # rest) ctx s stack =
     (case fst p ctx s of (ctx', s1) \<Rightarrow> enter_all rest ctx' s1 (snd p ctx s # stack))"

fun unwind ::
  "('s, 'r, 'e) pending list \<Rightarrow> ('r \<times> 'e option) outcome \<times> 's \<Rightarrow> ('r \<times> 'e option) outcome \<times> 's" where
  "unwind [] r = r"
| "unwind (k # stack) r = unwind stack (k (fst r) (snd r))"

text \<open>The pre-next logics alone: the context and state with which the handler is reached.\<close>

fun run_pre :: "('c, 's) pre_logic list \<Rightarrow> 'c \<Rightarrow> 's \<Rightarrow> 'c \<times> 's" where
  "run_pre [] ctx s = (ctx, s)"
| "run_pre (pre # rest) ctx s = (case pre ctx s of (ctx', s1) \<Rightarrow> run_pre rest ctx' s1)"

section \<open>Package interceptor: error.go\<close>

text \<open>
  \<^verbatim>\<open>
  type InterceptorError struct {
      InterceptorName string
      Err             error
  }
  \<close>
  The field \<^verbatim>\<open>Err\<close> has the interface type \<^verbatim>\<open>error\<close>: it is nil (\<open>None\<close>) or an error
  value of some type \<open>'err\<close>.
\<close>

record 'err InterceptorError =
  InterceptorName :: string
  Err :: "'err option"

text \<open>\<^verbatim>\<open>func (e *InterceptorError) Unwrap() error { return e.Err }\<close>\<close>

definition Unwrap :: "'err InterceptorError \<Rightarrow> 'err option" where
  "Unwrap e = Err e"

text \<open>
  \<^verbatim>\<open>
  func NewInterceptorError(name string, err error) error {
      if err == nil {
          return nil
      }
      return &InterceptorError{InterceptorName: name, Err: err}
  }
  \<close>
  The returned \<^verbatim>\<open>error\<close> is nil or holds the new \<^verbatim>\<open>*InterceptorError\<close>.
\<close>

definition NewInterceptorError :: "string \<Rightarrow> 'err option \<Rightarrow> 'err InterceptorError option" where
  "NewInterceptorError name err =
     (if err = None then None
      else Some \<lparr>InterceptorName = name, Err = err\<rparr>)"

section \<open>Package interceptor: context.go\<close>

text \<open>
  \<^verbatim>\<open>
  type UniversalContext[M any] struct {
      context.Context
      Protocol string
      Method   string
      Meta     M
  }
  \<close>
\<close>

record ('k, 'm) UniversalContext =
  Context :: "'k Context option"
  Protocol :: string
  Method :: string
  Meta :: 'm

text \<open>
  \<^verbatim>\<open>
  func NewUniversalContext[M any](ctx context.Context, protocol, method string, meta M)
          *UniversalContext[M] {
      if ctx == nil {
          ctx = context.Background()
      }
      return &UniversalContext[M]{Context: ctx, Protocol: protocol, Method: method, Meta: meta}
  }
  \<close>
  The result is a pointer: \<open>Some\<close> of the struct it points to, \<open>None\<close> for nil.
\<close>

definition NewUniversalContext ::
  "'k Context option \<Rightarrow> string \<Rightarrow> string \<Rightarrow> 'm \<Rightarrow> ('k, 'm) UniversalContext option" where
  "NewUniversalContext ctx protocol method meta =
     (let ctx = (if ctx = None then Some Background else ctx)
      in Some \<lparr>Context = ctx, Protocol = protocol, Method = method, Meta = meta\<rparr>)"

section \<open>Package interceptor: bridge.go\<close>





section \<open>Package adaptertemplate: the reflection-based router registration\<close>

text \<open>
  What \<^verbatim>\<open>reflect\<close> shows of a controller. A \<^verbatim>\<open>reflect.Type\<close> is compared by identity;
  the only type the code compares with is the interface type \<^verbatim>\<open>context.Context\<close>. A
  method type (the receiver is not part of it) has its lists of parameter and result
  types.
\<close>

datatype go_type = ContextContext | OtherType string

record func_type =
  ins :: "go_type list"
  outs :: "go_type list"

text \<open>
  A method of the controller's method set: its name, its type, and what
  \<^verbatim>\<open>method.Call([]reflect.Value{reflect.ValueOf(ctx)})\<close> does. The method set of
  \<^verbatim>\<open>reflect.Value\<close> holds the exported methods only, ordered by name.
\<close>

record ('k, 's) controller_method =
  MethodName :: string
  MethodType :: func_type
  MethodCall :: "'k Context \<Rightarrow> (unit, 's) go"

text \<open>
  A non-nil \<^verbatim>\<open>ICoreController\<close> (the interface has no methods): the name of its dynamic
  type, \<^verbatim>\<open>valueType.String()\<close>, and its method set.
\<close>

record ('k, 's) controller =
  TypeString :: string
  Methods :: "('k, 's) controller_method list"

definition NumMethod :: "('k, 's) controller \<Rightarrow> nat" where
  "NumMethod v = length (Methods v)"

text \<open>
  \<^verbatim>\<open>
  func isValidDynamicMethod(methodType reflect.Type) bool {
      if methodType.NumIn() != 1 { return false }
      if methodType.NumOut() != 0 { return false }
      ctxType := reflect.TypeOf((*context.Context)(nil)).Elem()
      if methodType.In(0) != ctxType { return false }
      return true
  }
  \<close>
  \<^verbatim>\<open>In(0)\<close> is read only after \<^verbatim>\<open>NumIn() == 1\<close>.
\<close>

definition isValidDynamicMethod :: "func_type \<Rightarrow> bool" where
  "isValidDynamicMethod methodType =
     (if length (ins methodType) \<noteq> 1 then False
      else if length (outs methodType) \<noteq> 0 then False
      else if ins methodType ! 0 \<noteq> ContextContext then False
      else True)"

text \<open>
  The error built by
  \<^verbatim>\<open>fmt.Errorf("method %s.%s panicked: %v", valueType.String(), methodName, r)\<close>,
  kept as the three values it is formatted from.
\<close>

datatype router_error = MethodPanicked string string panic_value

text \<open>
  The loop of \<^verbatim>\<open>RegisterRouter\<close>:
  \<^verbatim>\<open>
  for i := 0; i < value.NumMethod(); i++ {
      method := value.Method(i)
      methodType := method.Type()
      methodName := valueType.Method(i).Name
      if !isValidDynamicMethod(methodType) {
          continue
      }
      var panicErr error
      func() {
          defer func() {
              if r := recover(); r != nil {
                  panicErr = fmt.Errorf(...)
              }
          }()
          method.Call([]reflect.Value{reflect.ValueOf(ctx)})
      }()
      if panicErr != nil {
          return panicErr
      }
  }
  return nil
  \<close>
  The module is built with Go 1.21 or later, where \<^verbatim>\<open>recover()\<close> returns a non-nil value
  for every panic (\<^verbatim>\<open>panic(nil)\<close> arrives as a \<^verbatim>\<open>*runtime.PanicNilError\<close>). What the
  method changed before it panicked stays changed.
\<close>

function RegisterRouter_loop ::
  "('k, 's) controller \<Rightarrow> 'k Context \<Rightarrow> nat \<Rightarrow> 's \<Rightarrow> router_error option \<times> 's" where
  "RegisterRouter_loop v ctx i s =
     (if i < NumMethod v then
        (let meth = Methods v ! i;
             methodType = MethodType meth;
             methodName = MethodName meth
         in if \<not> isValidDynamicMethod methodType then RegisterRouter_loop v ctx (i + 1) s
            else
              (case MethodCall meth ctx s of
                 (Panic r, s') \<Rightarrow> (Some (MethodPanicked (TypeString v) methodName r), s')
               | (Return u, s') \<Rightarrow> RegisterRouter_loop v ctx (i + 1) s'))
      else (None, s))"
  by pat_completeness auto
termination
  by (relation "measure (\<lambda>(v, ctx, i, s). NumMethod v - i)") auto

declare RegisterRouter_loop.simps [simp del]

text \<open>
  \<^verbatim>\<open>
  func RegisterRouter(controller ICoreController, ctx context.Context) error {
      if controller == nil {
          return nil
      }
      if ctx == nil {
          ctx = context.Background()
      }
      value := reflect.ValueOf(controller)
      valueType := value.Type()
      ... the loop ...
  }
  \<close>
\<close>

definition RegisterRouter ::
  "('k, 's) controller option \<Rightarrow> 'k Context option \<Rightarrow> 's \<Rightarrow> router_error option \<times> 's" where
  "RegisterRouter controller ctx s =
     (case controller of
        None \<Rightarrow> (None, s)
      | Some v \<Rightarrow>
          (let ctx = (case ctx of None \<Rightarrow> Background | Some c \<Rightarrow> c)
           in RegisterRouter_loop v ctx 0 s))"

subsection \<open>The behaviour the specification describes\<close>

text \<open>
  A method has the signature \<^verbatim>\<open>func(context.Context)\<close>: one parameter, of exactly the
  type \<^verbatim>\<open>context.Context\<close>, and no result.
\<close>

definition has_context_signature :: "('k, 's) controller_method \<Rightarrow> bool" where
  "has_context_signature m =
     (ins (MethodType m) = [ContextContext] \<and> outs (MethodType m) = [])"

text \<open>
  Calling the methods of a list one after the other: the first that panics ends the
  run with an error naming it, and the methods after it are not called; when none
  panics, all are called and there is no error.
\<close>

fun call_until_panic ::
  "string \<Rightarrow> ('k, 's) controller_method list \<Rightarrow> 'k Context \<Rightarrow> 's \<Rightarrow> router_error option \<times> 's" where
  "call_until_panic tn [] ctx s = (None, s)"
| "call_until_panic tn (m # ms) ctx s =
     (case MethodCall m ctx s of
        (Panic r, s') \<Rightarrow> (Some (MethodPanicked tn (MethodName m) r), s')
      | (Return u, s') \<Rightarrow> call_until_panic tn ms ctx s')"

section \<open>Handlers, interceptors and controllers of the package tests\<close>

text \<open>
  \<^verbatim>\<open>TestChain_MultipleInterceptors\<close>: every interceptor appends \<^verbatim>\<open>before-n\<close> to the shared
  slice \<^verbatim>\<open>calls\<close>, calls \<^verbatim>\<open>next\<close>, appends \<^verbatim>\<open>after-n\<close> and returns what \<^verbatim>\<open>next\<close> returned;
  the handler appends \<^verbatim>\<open>handler\<close> and returns \<^verbatim>\<open>"result", nil\<close>. The state is \<^verbatim>\<open>calls\<close>.
  \<^verbatim>\<open>
  func(ctx, next) (any, error) {
      calls = append(calls, "before-n")
      result, err := next(ctx)
      calls = append(calls, "after-n")
      return result, err
  }
  \<close>
  The closure has no \<^verbatim>\<open>recover\<close>: when \<^verbatim>\<open>next\<close> panics, the line after the call does
  not run and the panic goes on to the caller.
\<close>

definition test_interceptor ::
  "string \<Rightarrow> (unit, string list, string option, string) Interceptor" where
  "test_interceptor n = as_interceptor
     (\<lambda>ctx calls. (ctx, calls @ [''before-'' @ n]),
      \<lambda>ctx entry out calls.
         (case out of
            Panic p \<Rightarrow> (Panic p, calls)
          | Return pair \<Rightarrow> (Return pair, calls @ [''after-'' @ n])))"

definition test_handler :: "(unit, string list, string option, string) NextFunc" where
  "test_handler = Some (\<lambda>ctx calls. (Return (Some ''result'', None), calls @ [''handler'']))"

text \<open>
  \<^verbatim>\<open>TestChain_FailFast\<close>: the second interceptor appends \<^verbatim>\<open>before-2\<close> and returns
  \<^verbatim>\<open>nil, expectedErr\<close> without calling \<^verbatim>\<open>next\<close>.
\<close>

definition test_interceptor_failing :: "(unit, string list, string option, string) Interceptor" where
  "test_interceptor_failing =
     Some (short_circuit (\<lambda>ctx calls.
       (Return (None, Some ''interceptor error''), calls @ [''before-2''])))"




text \<open>
  The \<^verbatim>\<open>testController\<close> of the router tests. Its fields are the state; its exported
  methods, by name: \<^verbatim>\<open>CreateUser(ctx)\<close>, \<^verbatim>\<open>GetUsers(ctx)\<close>, \<^verbatim>\<open>InvalidMethod()\<close>,
  \<^verbatim>\<open>InvalidMethodMultiParams(ctx, string)\<close> and \<^verbatim>\<open>InvalidMethodWithReturn(ctx) string\<close>.
  \<^verbatim>\<open>reflect\<close> panics on a call with the wrong number of arguments.
\<close>

record testController =
  getMethodCalled :: bool
  postMethodCalled :: bool
  invalidMethodCalled :: bool
  shouldPanic :: bool

definition test_controller :: "(unit, testController) controller" where
  "test_controller =
     \<lparr>TypeString = ''*adaptertemplate.testController'',
      Methods =
        [\<lparr>MethodName = ''CreateUser'',
          MethodType = \<lparr>ins = [ContextContext], outs = []\<rparr>,
          MethodCall = (\<lambda>ctx t.
            if shouldPanic t
            then (Panic (PanicValue ''intentional panic for testing''), t\<lparr>postMethodCalled := True\<rparr>)
            else (Return (), t\<lparr>postMethodCalled := True\<rparr>))\<rparr>,
         \<lparr>MethodName = ''GetUsers'',
          MethodType = \<lparr>ins = [ContextContext], outs = []\<rparr>,
          MethodCall = (\<lambda>ctx t. (Return (), t\<lparr>getMethodCalled := True\<rparr>))\<rparr>,
         \<lparr>MethodName = ''InvalidMethod'',
          MethodType = \<lparr>ins = [], outs = []\<rparr>,
          MethodCall = (\<lambda>ctx t. (Panic (PanicValue ''reflect: Call with too many input arguments''), t))\<rparr>,
         \<lparr>MethodName = ''InvalidMethodMultiParams'',
          MethodType = \<lparr>ins = [ContextContext, OtherType ''string''], outs = []\<rparr>,
          MethodCall = (\<lambda>ctx t. (Panic (PanicValue ''reflect: Call with too few input arguments''), t))\<rparr>,
         \<lparr>MethodName = ''InvalidMethodWithReturn'',
          MethodType = \<lparr>ins = [ContextContext], outs = [OtherType ''string'']\<rparr>,
          MethodCall = (\<lambda>ctx t. (Return (), t))\<rparr>]\<rparr>"

section \<open>The pipeline as a nest of layers\<close>

lemma call_func_layer: "call_func (layer i next) ctx s = Intercept i ctx next s"
  by (simp add: layer_def call_func_def)

lemma Chain_loop_take:
  "k \<le> length interceptors \<Longrightarrow>
     Chain_loop handler interceptors (int k - 1) = Inr (foldr layer (take k interceptors) handler)"
proof (induction k arbitrary: handler)
  case 0
  then show ?case by (simp add: Chain_loop.simps)
next
  case (Suc k)
  then have lt: "k < length interceptors" by simp
  have "Chain_loop handler interceptors (int (Suc k) - 1)
          = Chain_loop (layer (interceptors ! k) handler) interceptors (int k - 1)"
    using lt by (subst Chain_loop.simps) (simp add: index_at_def layer_def)
  also have "\<dots> = Inr (foldr layer (take k interceptors) (layer (interceptors ! k) handler))"
    using Suc.IH [of "layer (interceptors ! k) handler"] lt by simp
  also have "\<dots> = Inr (foldr layer (take (Suc k) interceptors) handler)"
    using lt by (simp add: take_Suc_conv_app_nth)
  finally show ?case .
qed

lemma Chain_foldr: "Chain handler interceptors = Inr (foldr layer interceptors handler)"
proof (cases "length interceptors = 0")
  case True
  then show ?thesis by (simp add: Chain_def)
next
  case False
  then show ?thesis
    using Chain_loop_take [of "length interceptors" interceptors handler]
    by (simp add: Chain_def)
qed


lemma unwind_layers:
  "unwind stack (call_func (foldr layer (map as_interceptor ps) inner) ctx s) =
     (case enter_all ps ctx s stack of
        (ctx', s', stack') \<Rightarrow> unwind stack' (call_func inner ctx' s'))"
proof (induction ps arbitrary: ctx s stack)
  case Nil
  then show ?case by simp
next
  case (Cons p ps)
  obtain ctx' s1 where pre: "fst p ctx s = (ctx', s1)"
    by (cases "fst p ctx s")
  let ?next = "foldr layer (map as_interceptor ps) inner"
  have "call_func (foldr layer (map as_interceptor (p # ps)) inner) ctx s =
          snd p ctx s (fst (call_func ?next ctx' s1)) (snd (call_func ?next ctx' s1))"
    by (simp add: call_func_layer Intercept_def as_interceptor_def around_def pre
        split: prod.split)
  then have "unwind stack (call_func (foldr layer (map as_interceptor (p # ps)) inner) ctx s) =
          unwind (snd p ctx s # stack) (call_func ?next ctx' s1)"
    by simp
  also have "\<dots> = (case enter_all ps ctx' s1 (snd p ctx s # stack) of
        (ctx'', s', stack') \<Rightarrow> unwind stack' (call_func inner ctx'' s'))"
    by (rule Cons.IH)
  finally show ?case by (simp add: pre)
qed

lemma call_layers:
  "call_func (foldr layer (map as_interceptor ps) inner) ctx s =
     (case enter_all ps ctx s [] of
        (ctx', s', stack) \<Rightarrow> unwind stack (call_func inner ctx' s'))"
  using unwind_layers [of "[]" ps inner ctx s] by simp

lemma call_passing_layers:
  "fst (call_func (foldr layer (map as_passing ps) inner) ctx s) =
     fst (case run_pre (map fst ps) ctx s of (ctx', s') \<Rightarrow> call_func inner ctx' s')"
proof (induction ps arbitrary: ctx s)
  case Nil
  then show ?case by simp
next
  case (Cons p ps)
  obtain ctx' s1 where pre: "fst p ctx s = (ctx', s1)"
    by (cases "fst p ctx s")
  have "fst (call_func (foldr layer (map as_passing (p # ps)) inner) ctx s) =
          fst (call_func (foldr layer (map as_passing ps) inner) ctx' s1)"
    by (simp add: call_func_layer Intercept_def as_passing_def passing_def around_def pre
        split: prod.split)
  then show ?case using Cons.IH [of ctx' s1] by (simp add: pre)
qed


text \<open>The model on \<^verbatim>\<open>TestChain_MultipleInterceptors\<close>: the call log the test expects.\<close>

lemma TestChain_MultipleInterceptors:
  "\<exists>pipeline.
     Chain test_handler [test_interceptor ''1'', test_interceptor ''2'', test_interceptor ''3'']
       = Inr pipeline \<and>
     call_func pipeline () [] =
       (Return (Some ''result'', None),
        [''before-1'', ''before-2'', ''before-3'', ''handler'',
         ''after-3'', ''after-2'', ''after-1''])"
  by (simp add: Chain_foldr test_interceptor_def as_interceptor_def around_def
      test_handler_def layer_def Intercept_def call_func_def)

text \<open>
  The model on \<^verbatim>\<open>TestChain_FailFast\<close>: the error of the second interceptor comes back,
  and neither the third interceptor nor the handler is in the log.
\<close>

lemma TestChain_FailFast:
  "\<exists>pipeline.
     Chain test_handler [test_interceptor ''1'', test_interceptor_failing, test_interceptor ''3'']
       = Inr pipeline \<and>
     call_func pipeline () [] =
       (Return (None, Some ''interceptor error''), [''before-1'', ''before-2'', ''after-1''])"
  by (simp add: Chain_foldr test_interceptor_def as_interceptor_def around_def
      test_interceptor_failing_def short_circuit_def layer_def Intercept_def call_func_def)

text \<open>
  The test interceptors around a nil handler: the call of \<^verbatim>\<open>next\<close> in the innermost one
  panics, and no \<^verbatim>\<open>after-n\<close> is logged on the way out.
\<close>

lemma test_interceptors_nil_handler:
  "\<exists>pipeline.
     Chain None [test_interceptor ''1'', test_interceptor ''2''] = Inr pipeline \<and>
     call_func pipeline () [] = (Panic NilDereference, [''before-1'', ''before-2''])"
  by (simp add: Chain_foldr test_interceptor_def as_interceptor_def around_def
      layer_def Intercept_def call_func_def)

section \<open>Properties of the chain builder\<close>

text \<open>
  Claim C3. With no interceptors \<^verbatim>\<open>Chain(H)\<close> returns the handler it was given: the
  same function value (for a nil handler, nil itself and not a closure around it), so
  calling the pipeline is calling \<open>H\<close>, for every context and state.
\<close>

theorem Chain_empty:
  "Chain H [] = Inr H \<and>
   (\<exists>pipeline. Chain H [] = Inr pipeline \<and> call_func pipeline ctx s = call_func H ctx s)"
  by (simp add: Chain_def)

text \<open>
  Claim C6. The builder is total: for every handler, nil included, and every list of
  interceptors, nil entries included, \<^verbatim>\<open>Chain\<close> returns a pipeline value. The loop
  terminates (it is a total function), its slice reads stay in range (the result is
  never \<open>Inl\<close>, the panic), and it takes and returns no state, as the source calls
  nothing but \<^verbatim>\<open>len\<close>.
\<close>

theorem Chain_total: "\<exists>pipeline. Chain handler interceptors = Inr pipeline"
  by (simp add: Chain_foldr)


text \<open>
  Claim C1. Let every interceptor of the list invoke its next-function exactly once
  (\<open>as_interceptor\<close> of a pre-next and a post-next logic). One invocation of the pipeline
  built by \<^verbatim>\<open>Chain\<close> is then the sequential run: the pre-next logic of I0, I1, ...,
  I(n-1) in this order, the handler once on the context and state they leave, and the
  post-next logic of I(n-1), ..., I1, I0, each applied once to the outcome and state
  the one before it left. The logics are arbitrary state changes, so the equation fixes
  the order and the number of executions of every effect.
\<close>

theorem Chain_call_order:
  "\<exists>pipeline. Chain H (map as_interceptor ps) = Inr pipeline \<and>
     (\<forall>ctx s. call_func pipeline ctx s =
        (case enter_all ps ctx s [] of
           (ctx', s', stack) \<Rightarrow> unwind stack (call_func H ctx' s')))"
  by (simp add: Chain_foldr call_layers)

text \<open>
  Claim C2. Let the interceptors before position k invoke next exactly once and let
  the interceptor at position k return \<open>f ctx s\<close> without invoking next. Whatever the
  later interceptors and the handler are (nil and panicking ones included), the
  pipeline runs the pre-next logic of I0, ..., I(k-1), then Ik, then the post-next logic
  of I(k-1), ..., I0 on what Ik returned. Neither the later interceptors nor the handler
  occur on the right-hand side: no effect of theirs happens and no result of theirs is
  used.
\<close>

theorem Chain_short_circuit:
  "\<exists>pipeline. Chain H (map as_interceptor ps @ Some (short_circuit f) # later) = Inr pipeline \<and>
     (\<forall>ctx s. call_func pipeline ctx s =
        (case enter_all ps ctx s [] of
           (ctx', s', stack) \<Rightarrow> unwind stack (f ctx' s')))"
proof -
  have inner: "call_func (foldr layer (Some (short_circuit f) # later) H) ctx s = f ctx s"
    for ctx s
    by (simp add: call_func_layer Intercept_def short_circuit_def)
  show ?thesis
    by (simp add: Chain_foldr call_layers inner del: foldr.simps)
qed

text \<open>
  Claim C4. Let every interceptor return what its next-function returned, unchanged.
  Then the pipeline returns what the handler returned when it was reached: the same
  result and the same error (or the same panic). In particular a handler returning
  \<open>(r, e)\<close> makes the pipeline return \<open>(r, e)\<close>.
\<close>

theorem Chain_returns_handler_pair:
  "\<exists>pipeline. Chain H (map as_passing ps) = Inr pipeline \<and>
     (\<forall>ctx s. fst (call_func pipeline ctx s) =
        fst (case run_pre (map fst ps) ctx s of (ctx', s') \<Rightarrow> call_func H ctx' s'))"
  by (simp add: Chain_foldr call_passing_layers)

text \<open>
  Claim C5. Let the handler return result \<open>r\<close> with a nil error, and let T0 and T1
  each invoke next once and apply \<open>f0\<close> and \<open>f1\<close> to a successful result. Then
  \<^verbatim>\<open>Chain(H, T0, T1)\<close> returns \<open>f0 (f1 r)\<close> with a nil error: the transformation of the
  innermost interceptor is applied first.
\<close>

theorem Chain_transform_order:
  assumes "call_func H ctx s = (Return (r, None), s')"
  shows "\<exists>pipeline. Chain H [Some (transform f0 g0), Some (transform f1 g1)] = Inr pipeline \<and>
     call_func pipeline ctx s = (Return (f0 (f1 r), None), s')"
  using assms
  by (simp add: Chain_foldr call_func_layer Intercept_def transform_def)

text \<open>
  The theorem at the handler and interceptors of \<^verbatim>\<open>TestChain_ModifyResult\<close>: the result
  is \<^verbatim>\<open>original-modified-2-modified-1\<close>.
\<close>

theorem Chain_transform_order_witness:
  "call_func (Some (\<lambda>ctx s. (Return (''original'', None), s))) () () =
       (Return (''original'', None :: string option), ()) \<and>
   (\<exists>pipeline.
      Chain (Some (\<lambda>ctx s. (Return (''original'', None), s)))
        [Some (transform (\<lambda>r. r @ ''-modified-1'') (\<lambda>out s. (out, s))),
         Some (transform (\<lambda>r. r @ ''-modified-2'') (\<lambda>out s. (out, s)))] = Inr pipeline \<and>
      call_func pipeline () () =
        (Return (''original-modified-2-modified-1'', None :: string option), ()))"
proof -
  have h: "call_func (Some (\<lambda>ctx s. (Return (''original'', None), s))) () () =
       (Return (''original'', None :: string option), ())"
    by (simp add: call_func_def)
  show ?thesis
    using h Chain_transform_order [OF h,
        of "\<lambda>r. r @ ''-modified-1''" "\<lambda>out s. (out, s)" "\<lambda>r. r @ ''-modified-2''" "\<lambda>out s. (out, s)"]
    by simp
qed


section \<open>Properties of the error wrapper and of the request context\<close>

text \<open>
  Claim C7. For every name and every non-nil error \<open>err\<close> (\<open>Some e\<close>),
  \<^verbatim>\<open>NewInterceptorError(name, err)\<close> returns a non-nil error, and \<^verbatim>\<open>Unwrap()\<close> of it is
  \<open>err\<close> itself: comparing the unwrapped value with the original cause succeeds after
  one step.
\<close>

theorem NewInterceptorError_Unwrap:
  "\<exists>w. NewInterceptorError name (Some e) = Some w \<and> Unwrap w = Some e"
  by (simp add: NewInterceptorError_def Unwrap_def)

text \<open>
  Claim C10. \<^verbatim>\<open>NewUniversalContext(ctx, protocol, method, meta)\<close> returns a non-nil
  pointer to a context whose \<^verbatim>\<open>Protocol\<close>, \<^verbatim>\<open>Method\<close> and \<^verbatim>\<open>Meta\<close> are the arguments and
  whose embedded \<^verbatim>\<open>Context\<close> is not nil: \<^verbatim>\<open>context.Background()\<close> for a nil \<^verbatim>\<open>ctx\<close>, else
  \<^verbatim>\<open>ctx\<close> as given.
\<close>

theorem NewUniversalContext_fields:
  "\<exists>u. NewUniversalContext ctx protocol method meta = Some u \<and>
     Protocol u = protocol \<and> Method u = method \<and> Meta u = meta \<and>
     Context u \<noteq> None \<and>
     Context u = (case ctx of None \<Rightarrow> Some Background | Some c \<Rightarrow> Some c)"
  by (cases ctx) (simp_all add: NewUniversalContext_def)

section \<open>Properties of the pipeline helper\<close>




section \<open>Properties of the router registration\<close>

lemma isValidDynamicMethod_iff:
  "isValidDynamicMethod (MethodType m) = has_context_signature m"
  by (cases "ins (MethodType m)") (auto simp: isValidDynamicMethod_def has_context_signature_def)

text \<open>The loop from index \<open>i\<close> on is the run over the matching methods from \<open>i\<close> on.\<close>

lemma RegisterRouter_loop_drop:
  "RegisterRouter_loop v ctx i s =
     call_until_panic (TypeString v) (filter has_context_signature (drop i (Methods v))) ctx s"
proof (induction v ctx i s rule: RegisterRouter_loop.induct)
  case (1 v ctx i s)
  show ?case
  proof (cases "i < length (Methods v)")
    case False
    then show ?thesis by (subst RegisterRouter_loop.simps) (simp add: NumMethod_def)
  next
    case True
    then have d: "drop i (Methods v) = Methods v ! i # drop (Suc i) (Methods v)"
      by (simp add: Cons_nth_drop_Suc)
    show ?thesis
    proof (cases "has_context_signature (Methods v ! i)")
      case False
      then show ?thesis
        using True "1.IH"(1) [OF _ refl refl refl]
        by (subst RegisterRouter_loop.simps)
           (simp add: NumMethod_def d isValidDynamicMethod_iff Let_def)
    next
      case valid: True
      show ?thesis
      proof (cases "MethodCall (Methods v ! i) ctx s")
        case (Pair out s')
        show ?thesis
        proof (cases out)
          case (Panic r)
          then show ?thesis
            using True valid Pair
            by (subst RegisterRouter_loop.simps)
               (simp add: NumMethod_def d isValidDynamicMethod_iff Let_def)
        next
          case (Return u)
          then show ?thesis
            using True valid Pair "1.IH"(2) [OF _ refl refl refl _ _ Return, of s']
            by (subst RegisterRouter_loop.simps)
               (simp add: NumMethod_def d isValidDynamicMethod_iff Let_def)
        qed
      qed
    qed
  qed
qed

text \<open>
  The model on \<^verbatim>\<open>TestRegisterRouter_Panic\<close>: \<^verbatim>\<open>CreateUser\<close> is called and panics, the
  error names it, and \<^verbatim>\<open>GetUsers\<close> is not called.
\<close>

lemma TestRegisterRouter_Panic:
  "RegisterRouter (Some test_controller) None
     \<lparr>getMethodCalled = False, postMethodCalled = False, invalidMethodCalled = False,
      shouldPanic = True\<rparr> =
   (Some (MethodPanicked ''*adaptertemplate.testController'' ''CreateUser''
            (PanicValue ''intentional panic for testing'')),
    \<lparr>getMethodCalled = False, postMethodCalled = True, invalidMethodCalled = False,
     shouldPanic = True\<rparr>)"
  by (simp add: RegisterRouter_def RegisterRouter_loop_drop test_controller_def
      has_context_signature_def)

text \<open>The model on \<^verbatim>\<open>TestRegisterRouter\<close>: both valid methods are called, no other.\<close>

lemma TestRegisterRouter:
  "RegisterRouter (Some test_controller) None
     \<lparr>getMethodCalled = False, postMethodCalled = False, invalidMethodCalled = False,
      shouldPanic = False\<rparr> =
   (None,
    \<lparr>getMethodCalled = True, postMethodCalled = True, invalidMethodCalled = False,
     shouldPanic = False\<rparr>)"
  by (simp add: RegisterRouter_def RegisterRouter_loop_drop test_controller_def
      has_context_signature_def)

text \<open>
  When the run ends with an error: exactly when the list splits into methods that all
  returned, a method called in the state they left that panicked, and a rest.
\<close>

lemma call_until_panic_append:
  "call_until_panic tn ms1 ctx s = (None, s0) \<Longrightarrow>
     call_until_panic tn (ms1 @ ms) ctx s = call_until_panic tn ms ctx s0"
proof (induction ms1 arbitrary: s)
  case Nil
  then show ?case by simp
next
  case (Cons m ms1)
  then show ?case
    by (cases "MethodCall m ctx s") (auto split: outcome.splits)
qed

lemma call_until_panic_error:
  "fst (call_until_panic tn ms ctx s) \<noteq> None \<Longrightarrow>
     \<exists>ms1 m ms2 s0 r s'. ms = ms1 @ m # ms2 \<and> call_until_panic tn ms1 ctx s = (None, s0) \<and>
        MethodCall m ctx s0 = (Panic r, s')"
proof (induction ms arbitrary: s)
  case Nil
  then show ?case by simp
next
  case (Cons m ms)
  obtain out s1 where call: "MethodCall m ctx s = (out, s1)"
    by (cases "MethodCall m ctx s")
  show ?case
  proof (cases out)
    case (Panic r)
    have "m # ms = [] @ m # ms \<and> call_until_panic tn [] ctx s = (None, s) \<and>
        MethodCall m ctx s = (Panic r, s1)"
      using call Panic by simp
    then show ?thesis by blast
  next
    case (Return u)
    then have "fst (call_until_panic tn ms ctx s1) \<noteq> None"
      using Cons.prems call by simp
    then obtain ms1 m' ms2 s0 r s' where
      split: "ms = ms1 @ m' # ms2" and
      before: "call_until_panic tn ms1 ctx s1 = (None, s0)" and
      panics: "MethodCall m' ctx s0 = (Panic r, s')"
      using Cons.IH by blast
    have "m # ms = (m # ms1) @ m' # ms2 \<and> call_until_panic tn (m # ms1) ctx s = (None, s0) \<and>
        MethodCall m' ctx s0 = (Panic r, s')"
      using split before panics call Return by simp
    then show ?thesis by blast
  qed
qed

lemma call_until_panic_error_iff:
  "(fst (call_until_panic tn ms ctx s) \<noteq> None) =
     (\<exists>ms1 m ms2 s0 r s'. ms = ms1 @ m # ms2 \<and> call_until_panic tn ms1 ctx s = (None, s0) \<and>
        MethodCall m ctx s0 = (Panic r, s'))"
proof
  assume "fst (call_until_panic tn ms ctx s) \<noteq> None"
  then show "\<exists>ms1 m ms2 s0 r s'. ms = ms1 @ m # ms2 \<and> call_until_panic tn ms1 ctx s = (None, s0) \<and>
        MethodCall m ctx s0 = (Panic r, s')"
    by (rule call_until_panic_error)
next
  assume "\<exists>ms1 m ms2 s0 r s'. ms = ms1 @ m # ms2 \<and> call_until_panic tn ms1 ctx s = (None, s0) \<and>
        MethodCall m ctx s0 = (Panic r, s')"
  then obtain ms1 m ms2 s0 r s' where
    split: "ms = ms1 @ m # ms2" and
    before: "call_until_panic tn ms1 ctx s = (None, s0)" and
    panics: "MethodCall m ctx s0 = (Panic r, s')"
    by blast
  have "call_until_panic tn ms ctx s = call_until_panic tn (m # ms2) ctx s0"
    using call_until_panic_append [OF before] split by simp
  then show "fst (call_until_panic tn ms ctx s) \<noteq> None"
    using panics by simp
qed

text \<open>
  Claim C8. For a non-nil controller, \<^verbatim>\<open>RegisterRouter\<close> is the run over exactly the
  methods of signature \<^verbatim>\<open>func(context.Context)\<close>, in the order of the method set, with
  the context given (the background context for nil): every other method is skipped,
  and the run ends at the first method that panics, no later method being called. The
  returned error is not nil exactly when one of these methods, reached after all
  matching methods before it returned, panics when it is called.
\<close>

theorem RegisterRouter_calls_matching_methods:
  "RegisterRouter (Some v) ctx s =
     call_until_panic (TypeString v) (filter has_context_signature (Methods v))
       (case ctx of None \<Rightarrow> Background | Some c \<Rightarrow> c) s \<and>
   (fst (RegisterRouter (Some v) ctx s) \<noteq> None) =
     (\<exists>ms1 m ms2 s0 r s'.
        filter has_context_signature (Methods v) = ms1 @ m # ms2 \<and>
        call_until_panic (TypeString v) ms1 (case ctx of None \<Rightarrow> Background | Some c \<Rightarrow> c) s
          = (None, s0) \<and>
        MethodCall m (case ctx of None \<Rightarrow> Background | Some c \<Rightarrow> c) s0 = (Panic r, s'))"
proof -
  have run: "RegisterRouter (Some v) ctx s =
     call_until_panic (TypeString v) (filter has_context_signature (Methods v))
       (case ctx of None \<Rightarrow> Background | Some c \<Rightarrow> c) s"
    by (simp add: RegisterRouter_def RegisterRouter_loop_drop)
  show ?thesis
    unfolding run by (rule conjI [OF refl call_until_panic_error_iff])
qed

end
